theory Spec2Isabelle
  imports Main "HOL-Library.Multiset"
begin

section \<open>Exceptions\<close>

text \<open>
  The Python exceptions the game logic can raise. A raise is the value \<open>Inl e\<close> of a
  result; a return is \<open>Inr v\<close>.
\<close>

datatype error = ValueError | IndexError | ZeroDivisionError | TypeError

section \<open>card.py\<close>

datatype CardType = REGULAR | WIZARD | FOOL

text \<open>
  \<open>CardColor.NONE\<close> is an enum member of its own (the color of Wizard and Fool cards); it
  is not Python's \<open>None\<close>. An \<open>Optional[CardColor]\<close> is a \<open>CardColor option\<close>.
\<close>

datatype CardColor = HUMANS | ELVES | DWARVES | GIANTS | NONE

record Card =
  card_type :: CardType
  color :: CardColor
  card_value :: "int option"

text \<open>\<open>Card.__init__\<close>: the constructor validates a regular card's color and value.\<close>

definition Card_init :: "CardType \<Rightarrow> CardColor option \<Rightarrow> int option \<Rightarrow> error + Card" where
  "Card_init ct col v =
    (if ct = REGULAR then
       (case col of
          None \<Rightarrow> Inl ValueError
        | Some c \<Rightarrow>
            if c = NONE then Inl ValueError
            else (case v of
                    None \<Rightarrow> Inl ValueError
                  | Some n \<Rightarrow>
                      if \<not> (1 \<le> n \<and> n \<le> 13) then Inl ValueError
                      else Inr \<lparr>card_type = ct, color = c, card_value = Some n\<rparr>))
     else if ct = WIZARD \<or> ct = FOOL then
       Inr \<lparr>card_type = ct, color = NONE, card_value = None\<rparr>
     else Inl ValueError)"

text \<open>The cards the constructor can return.\<close>

definition valid_card :: "Card \<Rightarrow> bool" where
  "valid_card c =
    (case card_type c of
       REGULAR \<Rightarrow>
         color c \<noteq> NONE \<and>
         (case card_value c of None \<Rightarrow> False | Some n \<Rightarrow> 1 \<le> n \<and> n \<le> 13)
     | WIZARD \<Rightarrow> color c = NONE \<and> card_value c = None
     | FOOL \<Rightarrow> color c = NONE \<and> card_value c = None)"

text \<open>
  \<open>self.value > other.value\<close>: Python compares two integers; with \<open>None\<close> on either side
  the comparison raises \<open>TypeError\<close>.
\<close>

fun py_gt :: "int option \<Rightarrow> int option \<Rightarrow> error + bool" where
  "py_gt (Some x) (Some y) = Inr (x > y)"
| "py_gt _ _ = Inl TypeError"

text \<open>\<open>Card.is_higher_than\<close>, branch by branch.\<close>

definition is_higher_than ::
  "Card \<Rightarrow> Card \<Rightarrow> CardColor option \<Rightarrow> CardColor option \<Rightarrow> error + bool" where
  "is_higher_than self other trump led =
    (if card_type self = WIZARD then Inr True
     else if card_type other = WIZARD then Inr False
     else if card_type self = FOOL then Inr False
     else if card_type other = FOOL then Inr True
     else if Some (color self) = trump \<and> Some (color other) \<noteq> trump then Inr True
     else if Some (color self) \<noteq> trump \<and> Some (color other) = trump then Inr False
     else if color self = color other then py_gt (card_value self) (card_value other)
     else if Some (color self) = led \<and> Some (color other) \<noteq> led then Inr True
     else Inr False)"

section \<open>apprentice.py\<close>

record Apprentice =
  name :: string
  hand :: "Card list"
  prediction :: "int option"
  tricks_won :: int
  experience_points :: int
  is_dealer :: bool
  is_confidant :: bool

definition Apprentice_init :: "string \<Rightarrow> Apprentice" where
  "Apprentice_init nm =
    \<lparr>name = nm, hand = [], prediction = None, tricks_won = 0, experience_points = 0,
     is_dealer = False, is_confidant = False\<rparr>"

definition receive_cards :: "Card list \<Rightarrow> Apprentice \<Rightarrow> Apprentice" where
  "receive_cards cs self = self\<lparr>hand := hand self @ cs\<rparr>"

definition Apprentice_make_prediction :: "int \<Rightarrow> Apprentice \<Rightarrow> error + Apprentice" where
  "Apprentice_make_prediction p self =
    (if p < 0 then Inl ValueError else Inr (self\<lparr>prediction := Some p\<rparr>))"

text \<open>\<open>list.pop(i)\<close> for an index already checked to be in range: the list without it.\<close>

definition list_pop :: "'a list \<Rightarrow> nat \<Rightarrow> 'a list" where
  "list_pop xs i = take i xs @ drop (Suc i) xs"

text \<open>
  \<open>Apprentice.play_card\<close>: the index check comes first, so the raise leaves the hand as it
  was; otherwise the card and the apprentice without it are returned.
\<close>

definition Apprentice_play_card :: "int \<Rightarrow> Apprentice \<Rightarrow> error + (Card \<times> Apprentice)" where
  "Apprentice_play_card card_index self =
    (if card_index < 0 \<or> card_index \<ge> int (length (hand self)) then Inl IndexError
     else Inr (hand self ! nat card_index,
               self\<lparr>hand := list_pop (hand self) (nat card_index)\<rparr>))"

definition can_follow_color :: "CardColor \<Rightarrow> Apprentice \<Rightarrow> bool" where
  "can_follow_color col self = list_ex (\<lambda>c. color c = col) (hand self)"

text \<open>
  \<open>Apprentice.get_playable_cards\<close>. The indices are Python integers; \<open>enumerate\<close> pairs
  each card with its position.
\<close>

definition get_playable_cards :: "CardColor option \<Rightarrow> Apprentice \<Rightarrow> int list" where
  "get_playable_cards led_color self =
    (case led_color of
       None \<Rightarrow> map int [0..<length (hand self)]
     | Some led \<Rightarrow>
         if \<not> can_follow_color led self then map int [0..<length (hand self)]
         else map (\<lambda>(i, c). int i)
                (filter (\<lambda>(i, c). color c = led \<or> color c = NONE)
                   (enumerate 0 (hand self))))"

definition win_trick :: "Apprentice \<Rightarrow> Apprentice" where
  "win_trick self = self\<lparr>tricks_won := tricks_won self + 1\<rparr>"

definition calculate_round_points :: "Apprentice \<Rightarrow> error + int" where
  "calculate_round_points self =
    (case prediction self of
       None \<Rightarrow> Inl ValueError
     | Some p \<Rightarrow>
         if p = tricks_won self then Inr (20 + (10 * tricks_won self))
         else Inr (- 10 * \<bar>p - tricks_won self\<bar>))"

section \<open>The apprentices as shared objects\<close>

text \<open>
  An \<open>Apprentice\<close> object is shared by the round's roster, the trick's dictionary keys and
  the callers. It has no \<open>__eq__\<close> or \<open>__hash__\<close>, so Python compares and hashes it by
  identity. A reference is the object's identity, and the heap gives every reference its
  object's current fields.
\<close>

type_synonym ref = nat

type_synonym heap = "ref \<Rightarrow> Apprentice"

section \<open>trick.py\<close>

text \<open>
  \<open>leading_apprentice\<close> is annotated \<open>Apprentice\<close>, but \<open>Round._start_next_trick\<close> passes
  the \<open>Optional[Apprentice]\<close> that \<open>complete_trick\<close> returned, so the field holds an option.
\<close>

record Trick =
  leading_apprentice :: "ref option"
  trump_color :: "CardColor option"
  cards_played :: "(ref \<times> Card) list"
  leading_color :: "CardColor option"
  winner :: "ref option"
  is_complete :: bool

text \<open>
  \<open>cards_played\<close> is a Python dict, which keeps its keys in insertion order: an
  association list with one entry per key. \<open>d[k] = v\<close> replaces the value of a key that
  is present, in place, and appends a new key at the end.
\<close>

fun dict_set :: "('k \<times> 'v) list \<Rightarrow> 'k \<Rightarrow> 'v \<Rightarrow> ('k \<times> 'v) list" where
  "dict_set [] k v = [(k, v)]"
| "dict_set ((k', v') # kvs) k v =
     (if k' = k then (k, v) # kvs else (k', v') # dict_set kvs k v)"

definition dict_contains :: "('k \<times> 'v) list \<Rightarrow> 'k \<Rightarrow> bool" where
  "dict_contains kvs k = list_ex (\<lambda>(k', v). k' = k) kvs"

definition Trick_init :: "ref option \<Rightarrow> CardColor option \<Rightarrow> Trick" where
  "Trick_init leader trump =
    \<lparr>leading_apprentice = leader, trump_color = trump, cards_played = [],
     leading_color = None, winner = None, is_complete = False\<rparr>"

text \<open>
  \<open>Trick.play_card\<close>. Both raises come before any assignment. The result carries the
  trick as the call leaves it.
\<close>

definition Trick_play_card :: "ref \<Rightarrow> Card \<Rightarrow> Trick \<Rightarrow> (error + bool) \<times> Trick" where
  "Trick_play_card apprentice c self =
    (if is_complete self then (Inl ValueError, self)
     else if dict_contains (cards_played self) apprentice then (Inl ValueError, self)
     else
       let self' =
         (if cards_played self = [] then
            (if card_type c = REGULAR then self\<lparr>leading_color := Some (color c)\<rparr>
             else self)
          else if leading_color self = None \<and> length (cards_played self) = 1 then
            (if card_type c = REGULAR then self\<lparr>leading_color := Some (color c)\<rparr>
             else self)
          else self)
       in (Inr True, self'\<lparr>cards_played := dict_set (cards_played self') apprentice c\<rparr>))"

text \<open>
  The last loop of \<open>Trick.determine_winner\<close>, over \<open>cards_played.items()\<close> in play order,
  with the loop variables \<open>highest_card\<close> and \<open>highest_apprentice\<close> as the accumulator.
\<close>

fun highest_loop ::
  "(ref \<times> Card) list \<Rightarrow> CardColor option \<Rightarrow> CardColor option \<Rightarrow>
   Card option \<times> ref option \<Rightarrow> error + (Card option \<times> ref option)" where
  "highest_loop [] trump led acc = Inr acc"
| "highest_loop ((apprentice, c) # rest) trump led (highest_card, highest_apprentice) =
     (if card_type c = FOOL then
        highest_loop rest trump led (highest_card, highest_apprentice)
      else
        (case highest_card of
           None \<Rightarrow> highest_loop rest trump led (Some c, Some apprentice)
         | Some h \<Rightarrow>
             (case is_higher_than c h trump led of
                Inl e \<Rightarrow> Inl e
              | Inr b \<Rightarrow>
                  if b then highest_loop rest trump led (Some c, Some apprentice)
                  else highest_loop rest trump led (highest_card, highest_apprentice))))"

text \<open>
  \<open>Trick.determine_winner\<close>: the returned apprentice (or the exception), and the trick as
  the call leaves it. The all-Fools branch returns without assigning \<open>self.winner\<close>.
\<close>

definition determine_winner :: "Trick \<Rightarrow> (error + ref option) \<times> Trick" where
  "determine_winner self =
    (case cards_played self of
       [] \<Rightarrow> (Inr None, self)
     | (first_apprentice, first_card) # others \<Rightarrow>
         if list_all (\<lambda>(apprentice, c). card_type c = FOOL) (cards_played self) then
           (Inr (Some first_apprentice), self)
         else
           (case find (\<lambda>(apprentice, c). card_type c = WIZARD) (cards_played self) of
              Some (apprentice, c) \<Rightarrow>
                (Inr (Some apprentice), self\<lparr>winner := Some apprentice\<rparr>)
            | None \<Rightarrow>
                (case highest_loop (cards_played self) (trump_color self) (leading_color self)
                        (None, None) of
                   Inl e \<Rightarrow> (Inl e, self)
                 | Inr (highest_card, highest_apprentice) \<Rightarrow>
                     (Inr highest_apprentice, self\<lparr>winner := highest_apprentice\<rparr>))))"

definition get_played_cards :: "Trick \<Rightarrow> (ref \<times> Card) list" where
  "get_played_cards self = cards_played self"

text \<open>
  \<open>Trick.is_valid_play\<close>. It reads the hand of the apprentice through the heap. No other
  function of the package calls it.
\<close>

definition is_valid_play :: "ref \<Rightarrow> Card \<Rightarrow> Trick \<Rightarrow> heap \<Rightarrow> bool" where
  "is_valid_play apprentice c self h =
    (case leading_color self of
       None \<Rightarrow> True
     | Some led \<Rightarrow>
         if card_type c = WIZARD \<or> card_type c = FOOL then True
         else if (case cards_played self of
                    [] \<Rightarrow> False
                  | (a, first_card) # others \<Rightarrow> card_type first_card = WIZARD) then True
         else if color c \<noteq> led \<and> can_follow_color led (h apprentice) then False
         else True)"

text \<open>
  \<open>Trick.complete_trick\<close>: sets the flag, resolves the winner and counts the trick for the
  winner, whose object lives in the heap.
\<close>

definition complete_trick :: "Trick \<Rightarrow> heap \<Rightarrow> (error + ref option) \<times> Trick \<times> heap" where
  "complete_trick self h =
    (case determine_winner (self\<lparr>is_complete := True\<rparr>) of
       (Inl e, self') \<Rightarrow> (Inl e, self', h)
     | (Inr None, self') \<Rightarrow> (Inr None, self', h)
     | (Inr (Some w), self') \<Rightarrow> (Inr (Some w), self', h(w := win_trick (h w))))"

section \<open>deck.py\<close>

record Deck =
  cards :: "Card list"

text \<open>The first exception of a sequence of constructor calls is the one that propagates.\<close>

fun collect :: "(error + 'a) list \<Rightarrow> error + 'a list" where
  "collect [] = Inr []"
| "collect (Inl e # rs) = Inl e"
| "collect (Inr x # rs) = (case collect rs of Inl e \<Rightarrow> Inl e | Inr xs \<Rightarrow> Inr (x # xs))"

text \<open>\<open>Deck.__init__\<close> and \<open>_initialize_cards\<close>: 4 colors with values 1 to 13, 4 Wizards, 4 Fools.\<close>

definition Deck_init :: "error + Deck" where
  "Deck_init =
    (case collect
       (concat (map (\<lambda>col. map (\<lambda>v. Card_init REGULAR (Some col) (Some v)) [1..13])
                  [HUMANS, ELVES, DWARVES, GIANTS])
        @ replicate 4 (Card_init WIZARD None None)
        @ replicate 4 (Card_init FOOL None None)) of
       Inl e \<Rightarrow> Inl e
     | Inr cs \<Rightarrow> Inr \<lparr>cards = cs\<rparr>)"

text \<open>
  \<open>Deck.shuffle\<close> calls \<open>random.shuffle\<close>, which rearranges the list in place. The order
  the random generator produces is the parameter \<open>order\<close>; \<open>shuffle_of\<close> says that it is a
  rearrangement of the deck's cards, which \<open>random.shuffle\<close> guarantees.
\<close>

definition shuffle :: "Card list \<Rightarrow> Deck \<Rightarrow> Deck" where
  "shuffle order self = self\<lparr>cards := order\<rparr>"

definition shuffle_of :: "Card list \<Rightarrow> Deck \<Rightarrow> bool" where
  "shuffle_of order self = (mset order = mset (cards self))"

text \<open>Python slices \<open>xs[:n]\<close> and \<open>xs[n:]\<close>; a negative \<open>n\<close> counts from the end.\<close>

definition slice_to :: "'a list \<Rightarrow> int \<Rightarrow> 'a list" where
  "slice_to xs n = (if 0 \<le> n then take (nat n) xs else take (length xs - nat (- n)) xs)"

definition slice_from :: "'a list \<Rightarrow> int \<Rightarrow> 'a list" where
  "slice_from xs n = (if 0 \<le> n then drop (nat n) xs else drop (length xs - nat (- n)) xs)"

definition deal :: "int \<Rightarrow> Deck \<Rightarrow> (error + Card list) \<times> Deck" where
  "deal num_cards self =
    (if num_cards > int (length (cards self)) then (Inl ValueError, self)
     else (Inr (slice_to (cards self) num_cards),
           self\<lparr>cards := slice_from (cards self) num_cards\<rparr>))"

text \<open>The loop \<open>for _ in range(num_players): hands.append(self.deal(cards_per_player))\<close>.\<close>

fun deal_loop :: "nat \<Rightarrow> int \<Rightarrow> Card list list \<Rightarrow> Deck \<Rightarrow> (error + Card list list) \<times> Deck" where
  "deal_loop 0 cards_per_player hands self = (Inr hands, self)"
| "deal_loop (Suc k) cards_per_player hands self =
     (case deal cards_per_player self of
        (Inl e, self') \<Rightarrow> (Inl e, self')
      | (Inr dealt, self') \<Rightarrow> deal_loop k cards_per_player (hands @ [dealt]) self')"

definition deal_to_players ::
  "int \<Rightarrow> int \<Rightarrow> Deck \<Rightarrow> (error + (Card list list \<times> Card list)) \<times> Deck" where
  "deal_to_players num_players cards_per_player self =
    (if num_players * cards_per_player > int (length (cards self)) then (Inl ValueError, self)
     else (case deal_loop (nat num_players) cards_per_player [] self of
             (Inl e, self') \<Rightarrow> (Inl e, self')
           | (Inr hands, self') \<Rightarrow> (Inr (hands, cards self'), self')))"

definition draw_trump_card :: "Deck \<Rightarrow> Card option \<times> Deck" where
  "draw_trump_card self =
    (case cards self of
       [] \<Rightarrow> (None, self)
     | top_card # rest \<Rightarrow> (Some top_card, self\<lparr>cards := rest\<rparr>))"

section \<open>round.py\<close>

datatype RoundPhase = DEALING | PREDICTING | PLAYING | SCORING | COMPLETE

text \<open>
  The round and the trick both have a field \<open>trump_color\<close>; after this record the trick's
  is written \<open>Trick.trump_color\<close>.
\<close>

record Round =
  round_number :: int
  apprentices :: "ref list"
  dealer_index :: int
  cards_per_apprentice :: int
  deck :: Deck
  trump_card :: "Card option"
  trump_color :: "CardColor option"
  current_trick :: "Trick option"
  tricks_played :: "Trick list"
  current_apprentice_index :: int
  phase :: RoundPhase

text \<open>
  \<open>Round.__init__\<close>. Python's \<open>%\<close> with a positive divisor is \<open>mod\<close> on \<open>int\<close>; with
  divisor 0 it raises.
\<close>

definition Round_init :: "int \<Rightarrow> ref list \<Rightarrow> int \<Rightarrow> error + Round" where
  "Round_init rn apps di =
    (case Deck_init of
       Inl e \<Rightarrow> Inl e
     | Inr d \<Rightarrow>
         if length apps = 0 then Inl ZeroDivisionError
         else Inr \<lparr>round_number = rn, apprentices = apps, dealer_index = di,
                   cards_per_apprentice = rn, deck = d, trump_card = None,
                   trump_color = None, current_trick = None, tricks_played = [],
                   current_apprentice_index = (di + 1) mod int (length apps),
                   phase = DEALING\<rparr>)"

text \<open>
  The loop \<open>for i, apprentice in enumerate(self.apprentices): apprentice.receive_cards(hands[i])\<close>.
  \<open>deal_to_players\<close> returns one hand per apprentice, so the roster is walked together with
  the hands.
\<close>

fun receive_loop :: "ref list \<Rightarrow> Card list list \<Rightarrow> heap \<Rightarrow> heap" where
  "receive_loop (a # as) (dealt # hands) h = receive_loop as hands (h(a := receive_cards dealt (h a)))"
| "receive_loop _ _ h = h"

text \<open>
  \<open>Round.deal_cards\<close>, with the shuffled order as parameter. The result is the returned
  trump card (or the exception) with the heap and the round as the call leaves them.
\<close>

definition deal_cards ::
  "Card list \<Rightarrow> heap \<Rightarrow> Round \<Rightarrow> (error + Card option) \<times> heap \<times> Round" where
  "deal_cards order h self =
    (if phase self \<noteq> DEALING then (Inl ValueError, h, self)
     else
       (case deal_to_players (int (length (apprentices self))) (cards_per_apprentice self)
               (shuffle order (deck self)) of
          (Inl e, d) \<Rightarrow> (Inl e, h, self\<lparr>deck := d\<rparr>)
        | (Inr (hands, remaining_cards), d) \<Rightarrow>
            let h' = receive_loop (apprentices self) hands h in
            if remaining_cards \<noteq> [] then
              (case draw_trump_card d of
                 (None, d') \<Rightarrow>
                   (Inr None, h', self\<lparr>deck := d', trump_card := None, phase := PREDICTING\<rparr>)
               | (Some tc, d') \<Rightarrow>
                   (Inr (Some tc), h',
                    self\<lparr>deck := d', trump_card := Some tc,
                         trump_color :=
                           (if card_type tc = WIZARD then None
                            else if card_type tc = FOOL then None
                            else Some (color tc)),
                         phase := PREDICTING\<rparr>))
            else
              (Inr None, h',
               self\<lparr>deck := d, trump_card := None, trump_color := None,
                    phase := PREDICTING\<rparr>)))"

definition set_dealer_chosen_trump :: "CardColor \<Rightarrow> Round \<Rightarrow> error + Round" where
  "set_dealer_chosen_trump col self =
    (if phase self \<noteq> PREDICTING then Inl ValueError
     else (case trump_card self of
             None \<Rightarrow> Inl ValueError
           | Some tc \<Rightarrow>
               if card_type tc \<noteq> WIZARD then Inl ValueError
               else Inr (self\<lparr>trump_color := Some col\<rparr>)))"

text \<open>Python list indexing \<open>xs[i]\<close>: a negative index counts from the end.\<close>

definition list_get :: "'a list \<Rightarrow> int \<Rightarrow> error + 'a" where
  "list_get xs i =
    (if 0 \<le> i \<and> i < int (length xs) then Inr (xs ! nat i)
     else if - int (length xs) \<le> i \<and> i < 0 then Inr (xs ! nat (i + int (length xs)))
     else Inl IndexError)"

text \<open>\<open>list.index(x)\<close>: the first position of \<open>x\<close>, or \<open>ValueError\<close>.\<close>

fun list_index :: "'a list \<Rightarrow> 'a \<Rightarrow> error + int" where
  "list_index [] x = Inl ValueError"
| "list_index (y # ys) x =
     (if y = x then Inr 0
      else (case list_index ys x of Inl e \<Rightarrow> Inl e | Inr i \<Rightarrow> Inr (i + 1)))"

definition start_first_trick :: "Round \<Rightarrow> error + Round" where
  "start_first_trick self =
    (if length (apprentices self) = 0 then Inl ZeroDivisionError
     else
       let first_apprentice_index = (dealer_index self + 1) mod int (length (apprentices self)) in
       (case list_get (apprentices self) first_apprentice_index of
          Inl e \<Rightarrow> Inl e
        | Inr first_apprentice \<Rightarrow>
            Inr (self\<lparr>current_trick := Some (Trick_init (Some first_apprentice) (trump_color self)),
                      current_apprentice_index := first_apprentice_index\<rparr>)))"

text \<open>
  \<open>Round._start_next_trick\<close>: the new trick is assigned before \<open>list.index\<close> can raise. The
  roster holds apprentices only, so \<open>index(None)\<close> raises.
\<close>

definition start_next_trick :: "ref option \<Rightarrow> Round \<Rightarrow> (error + unit) \<times> Round" where
  "start_next_trick leader self =
    (let self' = self\<lparr>current_trick := Some (Trick_init leader (trump_color self))\<rparr> in
     (case leader of
        None \<Rightarrow> (Inl ValueError, self')
      | Some a \<Rightarrow>
          (case list_index (apprentices self) a of
             Inl e \<Rightarrow> (Inl e, self')
           | Inr i \<Rightarrow> (Inr (), self'\<lparr>current_apprentice_index := i\<rparr>))))"

text \<open>
  \<open>Round.make_prediction\<close>. The only test on the prediction is its range; the apprentice's
  current prediction is not read before it is assigned.
\<close>

definition Round_make_prediction ::
  "ref \<Rightarrow> int \<Rightarrow> heap \<Rightarrow> Round \<Rightarrow> (error + bool) \<times> heap \<times> Round" where
  "Round_make_prediction apprentice p h self =
    (if phase self \<noteq> PREDICTING then (Inl ValueError, h, self)
     else if p < 0 \<or> p > cards_per_apprentice self then (Inr False, h, self)
     else
       (case Apprentice_make_prediction p (h apprentice) of
          Inl e \<Rightarrow> (Inl e, h, self)
        | Inr a' \<Rightarrow>
            let h' = h(apprentice := a') in
            if list_all (\<lambda>a. prediction (h' a) \<noteq> None) (apprentices self) then
              (case start_first_trick (self\<lparr>phase := PLAYING\<rparr>) of
                 Inl e \<Rightarrow> (Inl e, h', self\<lparr>phase := PLAYING\<rparr>)
               | Inr self' \<Rightarrow> (Inr True, h', self'))
            else (Inr True, h', self)))"

text \<open>
  \<open>Round.play_card\<close>. The legality test is \<open>get_playable_cards\<close> on the trick's leading
  color; \<open>Trick.is_valid_play\<close> is not called. Every result carries the heap and the round
  as the call leaves them, also when it raises.
\<close>

definition Round_play_card ::
  "ref \<Rightarrow> int \<Rightarrow> heap \<Rightarrow> Round \<Rightarrow> (error + bool) \<times> heap \<times> Round" where
  "Round_play_card apprentice card_index h self =
    (if phase self \<noteq> PLAYING then (Inl ValueError, h, self)
     else
       (case list_get (apprentices self) (current_apprentice_index self) of
          Inl e \<Rightarrow> (Inl e, h, self)
        | Inr current \<Rightarrow>
            if apprentice \<noteq> current then (Inl ValueError, h, self)
            else
              (case current_trick self of
                 None \<Rightarrow> (Inl ValueError, h, self)
               | Some t \<Rightarrow>
                   let playable_indices = get_playable_cards (leading_color t) (h apprentice) in
                   if card_index \<notin> set playable_indices then (Inr False, h, self)
                   else
                     (case Apprentice_play_card card_index (h apprentice) of
                        Inl e \<Rightarrow> (Inl e, h, self)
                      | Inr (c, a') \<Rightarrow>
                          let h1 = h(apprentice := a') in
                          (case Trick_play_card apprentice c t of
                             (Inl e, t1) \<Rightarrow> (Inl e, h1, self\<lparr>current_trick := Some t1\<rparr>)
                           | (Inr ok, t1) \<Rightarrow>
                               let self1 = self\<lparr>current_trick := Some t1,
                                     current_apprentice_index :=
                                       (current_apprentice_index self + 1)
                                         mod int (length (apprentices self))\<rparr> in
                               if length (cards_played t1) = length (apprentices self) then
                                 (case complete_trick t1 h1 of
                                    (Inl e, t2, h2) \<Rightarrow>
                                      (Inl e, h2, self1\<lparr>current_trick := Some t2\<rparr>)
                                  | (Inr w, t2, h2) \<Rightarrow>
                                      let self2 = self1\<lparr>current_trick := Some t2,
                                            tricks_played := tricks_played self1 @ [t2]\<rparr> in
                                      if int (length (tricks_played self2)) =
                                           cards_per_apprentice self2 then
                                        (Inr True, h2, self2\<lparr>phase := SCORING\<rparr>)
                                      else
                                        (case start_next_trick w self2 of
                                           (Inl e, self3) \<Rightarrow> (Inl e, h2, self3)
                                         | (Inr u, self3) \<Rightarrow> (Inr True, h2, self3)))
                               else (Inr True, h1, self1))))))"

section \<open>Notions of the specification\<close>

text \<open>
  \<open>ranks_higher\<close> is the specification's name for \<open>is_higher_than\<close> answering \<open>True\<close>.
\<close>

definition ranks_higher :: "Card \<Rightarrow> Card \<Rightarrow> CardColor option \<Rightarrow> CardColor option \<Rightarrow> bool" where
  "ranks_higher a b trump led = (is_higher_than a b trump led = Inr True)"

text \<open>The candidates of the third resolution rule: the plays that are not a Fool, in play order.\<close>

definition candidates :: "(ref \<times> Card) list \<Rightarrow> (ref \<times> Card) list" where
  "candidates ps = filter (\<lambda>(a, c). card_type c \<noteq> FOOL) ps"

text \<open>
  The specification's fold: \<open>ranks_higher\<close> folded across the candidates, tracking a
  running best.
\<close>

definition keep_best ::
  "CardColor option \<Rightarrow> CardColor option \<Rightarrow> ref \<times> Card \<Rightarrow> ref \<times> Card \<Rightarrow> ref \<times> Card" where
  "keep_best trump led best p = (if ranks_higher (snd p) (snd best) trump led then p else best)"

definition fold_ranks_higher ::
  "(ref \<times> Card) list \<Rightarrow> CardColor option \<Rightarrow> CardColor option \<Rightarrow> (ref \<times> Card) option" where
  "fold_ranks_higher ps trump led =
    (case candidates ps of
       [] \<Rightarrow> None
     | p # rest \<Rightarrow> Some (foldl (keep_best trump led) p rest))"

text \<open>
  The play at position \<open>i\<close> is not a Fool and its card \<open>ranks_higher\<close> than the card of
  every other play that is not a Fool.
\<close>

definition ranks_above_all ::
  "(ref \<times> Card) list \<Rightarrow> CardColor option \<Rightarrow> CardColor option \<Rightarrow> nat \<Rightarrow> bool" where
  "ranks_above_all ps trump led i \<longleftrightarrow>
     i < length ps \<and> card_type (snd (ps ! i)) \<noteq> FOOL \<and>
     list_all (\<lambda>j. j = i \<or> card_type (snd (ps ! j)) = FOOL \<or>
                    ranks_higher (snd (ps ! i)) (snd (ps ! j)) trump led)
       [0..<length ps]"

text \<open>A sequence of calls of \<open>Trick.play_card\<close>, stopping at the first exception.\<close>

fun play_all :: "(ref \<times> Card) list \<Rightarrow> Trick \<Rightarrow> (error + bool) \<times> Trick" where
  "play_all [] t = (Inr True, t)"
| "play_all ((a, c) # ps) t =
     (case Trick_play_card a c t of
        (Inl e, t') \<Rightarrow> (Inl e, t')
      | (Inr ok, t') \<Rightarrow> play_all ps t')"

section \<open>Example cards, hands and tricks\<close>

definition wizard_card :: Card where
  "wizard_card = \<lparr>card_type = WIZARD, color = NONE, card_value = None\<rparr>"

definition fool_card :: Card where
  "fool_card = \<lparr>card_type = FOOL, color = NONE, card_value = None\<rparr>"

definition regular_card :: "CardColor \<Rightarrow> int \<Rightarrow> Card" where
  "regular_card col v = \<lparr>card_type = REGULAR, color = col, card_value = Some v\<rparr>"

text \<open>An apprentice at scoring time, with a prediction and a number of tricks won.\<close>

definition scored :: "int option \<Rightarrow> int \<Rightarrow> Apprentice" where
  "scored p t = (Apprentice_init ''Test Apprentice'')\<lparr>prediction := p, tricks_won := t\<rparr>"

text \<open>The hand of the test of \<open>get_playable_cards\<close>.\<close>

definition test_hand :: Apprentice where
  "test_hand = receive_cards
     [regular_card HUMANS 5, regular_card HUMANS 10, regular_card DWARVES 7, wizard_card, fool_card]
     (Apprentice_init ''Test Apprentice'')"

text \<open>
  Tricks built by \<open>play_card\<close> from a new trick. Apprentices 1, 2, 3 and 4 play in this
  order.
\<close>

definition fools_first_plays :: "(ref \<times> Card) list" where
  "fools_first_plays =
     [(1, fool_card), (2, fool_card), (3, regular_card DWARVES 5), (4, regular_card HUMANS 7)]"

definition fools_first_trick :: Trick where
  "fools_first_trick = snd (play_all fools_first_plays (Trick_init (Some 1) None))"

definition led_plays :: "(ref \<times> Card) list" where
  "led_plays = [(1, regular_card HUMANS 8), (2, regular_card HUMANS 10), (3, regular_card ELVES 13)]"

definition led_trick :: Trick where
  "led_trick = snd (play_all led_plays (Trick_init (Some 1) (Some DWARVES)))"

definition all_fools_plays :: "(ref \<times> Card) list" where
  "all_fools_plays = [(1, fool_card), (2, fool_card), (3, fool_card)]"

definition all_fools_trick :: Trick where
  "all_fools_trick = snd (play_all all_fools_plays (Trick_init (Some 1) (Some DWARVES)))"

definition wizard_plays :: "(ref \<times> Card) list" where
  "wizard_plays = [(1, regular_card DWARVES 13), (2, wizard_card), (3, regular_card HUMANS 10)]"

definition wizard_trick :: Trick where
  "wizard_trick = snd (play_all wizard_plays (Trick_init (Some 1) (Some DWARVES)))"

definition specials_first_plays :: "(ref \<times> Card) list" where
  "specials_first_plays = [(1, fool_card), (2, wizard_card), (3, regular_card ELVES 10)]"

section \<open>An example round\<close>

text \<open>The deck that \<open>Deck.__init__\<close> builds, as a list of the example cards.\<close>

definition new_deck :: Deck where
  "new_deck =
     \<lparr>cards = map (regular_card HUMANS) [1..13] @ map (regular_card ELVES) [1..13] @
              map (regular_card DWARVES) [1..13] @ map (regular_card GIANTS) [1..13] @
              replicate 4 wizard_card @ replicate 4 fool_card\<rparr>"

text \<open>
  A call of the round by its caller: a prediction or a play by an apprentice. \<open>calls\<close>
  makes the calls one after the other, each on the heap and round that the one before left,
  and gives the result of the last one.
\<close>

datatype call = Predict ref int | Play ref int

fun call_round :: "call \<Rightarrow> heap \<Rightarrow> Round \<Rightarrow> (error + bool) \<times> heap \<times> Round" where
  "call_round (Predict a p) h r = Round_make_prediction a p h r"
| "call_round (Play a i) h r = Round_play_card a i h r"

fun calls :: "call list \<Rightarrow> heap \<Rightarrow> Round \<Rightarrow> (error + bool) \<times> heap \<times> Round" where
  "calls [] h r = (Inr True, h, r)"
| "calls [c] h r = call_round c h r"
| "calls (c # cs) h r = (case call_round c h r of (res, h', r') \<Rightarrow> calls cs h' r')"

text \<open>
  Round 8 with the apprentices 1, 2 and 3, dealer at index 2, so apprentice 1 leads. The
  shuffle leaves the new deck rotated by 52 cards: the Wizards and Fools come first, then
  the Regular cards in the order of the new deck.
\<close>

definition table_heap :: heap where
  "table_heap = (\<lambda>a. Apprentice_init ''Apprentice'')"

definition shuffled_order :: "Card list" where
  "shuffled_order = rotate 52 (cards new_deck)"

definition round_created :: Round where
  "round_created = projr (Round_init 8 [1, 2, 3] 2)"

definition round_dealt :: "(error + Card option) \<times> heap \<times> Round" where
  "round_dealt = deal_cards shuffled_order table_heap round_created"

definition after_calls :: "call list \<Rightarrow> (error + bool) \<times> heap \<times> Round" where
  "after_calls cs = calls cs (fst (snd round_dealt)) (snd (snd round_dealt))"

text \<open>The three predictions that start the playing phase, and the first two plays.\<close>

definition predictions :: "call list" where
  "predictions = [Predict 1 2, Predict 2 3, Predict 3 3]"

definition wizard_led :: "call list" where
  "wizard_led = predictions @ [Play 1 0, Play 2 0]"

definition playing_heap :: heap where
  "playing_heap = fst (snd (after_calls predictions))"

definition playing_round :: Round where
  "playing_round = snd (snd (after_calls predictions))"

definition wizard_led_heap :: heap where
  "wizard_led_heap = fst (snd (after_calls wizard_led))"

definition wizard_led_round :: Round where
  "wizard_led_round = snd (snd (after_calls wizard_led))"

section \<open>Properties of card.py\<close>

lemma Card_init_valid: "Card_init ct col v = Inr c \<Longrightarrow> valid_card c"
  by (cases ct; cases col; cases v)
     (auto simp: Card_init_def valid_card_def split: if_splits)

lemma valid_card_Card_init:
  assumes "valid_card c"
  shows "\<exists>col v. Card_init (card_type c) col v = Inr c"
proof (cases "card_type c")
  case REGULAR
  with assms obtain n where n: "card_value c = Some n" "1 \<le> n" "n \<le> 13" and col: "color c \<noteq> NONE"
    by (auto simp: valid_card_def split: option.splits)
  have "Card_init (card_type c) (Some (color c)) (Some n) = Inr c"
    using REGULAR n col by (simp add: Card_init_def)
  then show ?thesis by blast
next
  case WIZARD
  with assms have "Card_init (card_type c) None None = Inr c"
    by (simp add: Card_init_def valid_card_def)
  then show ?thesis by blast
next
  case FOOL
  with assms have "Card_init (card_type c) None None = Inr c"
    by (simp add: Card_init_def valid_card_def)
  then show ?thesis by blast
qed

lemma py_gt_asym: "py_gt x y = Inr True \<Longrightarrow> py_gt y x \<noteq> Inr True"
  by (cases x; cases y) auto

lemma is_higher_than_WIZARD: "card_type a = WIZARD \<Longrightarrow> is_higher_than a b trump led = Inr True"
  by (simp add: is_higher_than_def)

lemma is_higher_than_not_both:
  "\<not> (card_type a = WIZARD \<and> card_type b = WIZARD) \<Longrightarrow>
   \<not> (is_higher_than a b trump led = Inr True \<and> is_higher_than b a trump led = Inr True)"
  by (auto simp: is_higher_than_def split: if_splits dest: py_gt_asym)

lemma is_higher_than_asym:
  "card_type a \<noteq> WIZARD \<or> card_type b \<noteq> WIZARD \<Longrightarrow>
   is_higher_than a b trump led = Inr True \<Longrightarrow> is_higher_than b a trump led \<noteq> Inr True"
  using is_higher_than_not_both [of a b trump led] by blast

lemma is_higher_than_valid:
  "valid_card a \<Longrightarrow> valid_card b \<Longrightarrow>
   is_higher_than a b trump led = Inr (ranks_higher a b trump led)"
  by (cases "card_type a"; cases "card_type b")
     (auto simp: is_higher_than_def ranks_higher_def valid_card_def split: option.splits)

lemma example_cards_constructed:
  "Card_init WIZARD None None = Inr wizard_card"
  "Card_init FOOL None None = Inr fool_card"
  "1 \<le> v \<Longrightarrow> v \<le> 13 \<Longrightarrow> col \<noteq> NONE \<Longrightarrow>
     Card_init REGULAR (Some col) (Some v) = Inr (regular_card col v)"
  by (simp_all add: Card_init_def wizard_card_def fool_card_def regular_card_def)

lemmas example_card_defs = wizard_card_def fool_card_def regular_card_def

text \<open>
  C5, as the code has it. \<open>is_higher_than\<close> answers \<open>True\<close> whenever its first card is a
  Wizard, so a Wizard ranks higher than itself and two Wizards rank higher than each other.
\<close>

theorem C5_wizard_ranks_higher_than_itself:
  "is_higher_than wizard_card wizard_card None None = Inr True"
  by (simp add: is_higher_than_def wizard_card_def)

text \<open>
  C5, amended: for two cards that are not both Wizards, \<open>is_higher_than\<close> is never true in
  both directions, for every trump and leading color; in particular no card other than a
  Wizard ranks higher than itself. With a Wizard as first card the answer is always true.
\<close>

theorem C5_is_higher_than_asymmetric:
  "(card_type a \<noteq> WIZARD \<or> card_type b \<noteq> WIZARD \<longrightarrow>
      \<not> (is_higher_than a b trump led = Inr True \<and> is_higher_than b a trump led = Inr True)) \<and>
   (card_type a \<noteq> WIZARD \<longrightarrow> is_higher_than a a trump led \<noteq> Inr True) \<and>
   (card_type a = WIZARD \<longrightarrow> is_higher_than a b trump led = Inr True)"
proof (intro conjI impI)
  assume "card_type a \<noteq> WIZARD \<or> card_type b \<noteq> WIZARD"
  then show "\<not> (is_higher_than a b trump led = Inr True \<and> is_higher_than b a trump led = Inr True)"
    using is_higher_than_not_both [of a b trump led] by blast
next
  assume "card_type a \<noteq> WIZARD"
  then show "is_higher_than a a trump led \<noteq> Inr True"
    using is_higher_than_not_both [of a a trump led] by blast
next
  assume "card_type a = WIZARD"
  then show "is_higher_than a b trump led = Inr True"
    by (simp add: is_higher_than_def)
qed

theorem C5_is_higher_than_asymmetric_witness:
  "card_type (regular_card DWARVES 5) \<noteq> WIZARD \<and>
   \<not> (is_higher_than (regular_card DWARVES 5) wizard_card (Some DWARVES) (Some HUMANS) = Inr True \<and>
      is_higher_than wizard_card (regular_card DWARVES 5) (Some DWARVES) (Some HUMANS) = Inr True) \<and>
   is_higher_than (regular_card DWARVES 5) (regular_card DWARVES 5) (Some DWARVES) (Some HUMANS)
     \<noteq> Inr True \<and>
   card_type wizard_card = WIZARD \<and>
   is_higher_than wizard_card (regular_card DWARVES 5) (Some DWARVES) (Some HUMANS) = Inr True"
  using C5_is_higher_than_asymmetric
          [of "regular_card DWARVES 5" wizard_card "Some DWARVES" "Some HUMANS"]
        C5_is_higher_than_asymmetric
          [of wizard_card "regular_card DWARVES 5" "Some DWARVES" "Some HUMANS"]
  by (simp add: regular_card_def wizard_card_def)

section \<open>Properties of apprentice.py\<close>

text \<open>
  C10: with a recorded prediction \<open>p\<close> and \<open>t\<close> tricks won the points are \<open>20 + 10 * t\<close> when
  \<open>p = t\<close> and \<open>- 10 * |p - t|\<close> otherwise; without a prediction the computation raises.
\<close>

theorem C10_calculate_round_points:
  "(prediction a = None \<longrightarrow> calculate_round_points a = Inl ValueError) \<and>
   (\<forall>p. prediction a = Some p \<longrightarrow>
      calculate_round_points a =
        Inr (if p = tricks_won a then 20 + 10 * tricks_won a else - (10 * \<bar>p - tricks_won a\<bar>)))"
  by (simp add: calculate_round_points_def)

theorem C10_calculate_round_points_witness:
  "calculate_round_points (scored (Some 3) 3) = Inr 50 \<and>
   calculate_round_points (scored (Some 2) 4) = Inr (- 20) \<and>
   calculate_round_points (scored (Some 5) 2) = Inr (- 30) \<and>
   calculate_round_points (scored None 0) = Inl ValueError"
  using C10_calculate_round_points [of "scored (Some 3) 3"]
    C10_calculate_round_points [of "scored (Some 2) 4"]
    C10_calculate_round_points [of "scored (Some 5) 2"]
    C10_calculate_round_points [of "scored None 0"]
  by (simp add: scored_def Apprentice_init_def)

lemma can_follow_color_iff: "can_follow_color col a \<longleftrightarrow> (\<exists>c \<in> set (hand a). color c = col)"
  by (simp add: can_follow_color_def list_ex_iff)

lemma set_follow_positions:
  "set (map (\<lambda>(i, c). int i)
          (filter (\<lambda>(i, c). color c = col \<or> color c = NONE) (enumerate 0 (hand a)))) =
   {int i | i. i < length (hand a) \<and> (color (hand a ! i) = col \<or> color (hand a ! i) = NONE)}"
  by (auto simp: in_set_enumerate_eq image_iff)

lemma distinct_follow_positions:
  "distinct (map (\<lambda>(i, c). int i)
     (filter (\<lambda>(i, c). color c = col \<or> color c = NONE) (enumerate 0 (hand a))))"
proof -
  have "distinct (map fst (filter (\<lambda>(i, c). color c = col \<or> color c = NONE) (enumerate 0 (hand a))))"
    by (rule distinct_map_filter) simp
  then have "distinct (map int
      (map fst (filter (\<lambda>(i, c). color c = col \<or> color c = NONE) (enumerate 0 (hand a)))))"
    by (simp add: distinct_map inj_on_def)
  then show ?thesis by (simp add: case_prod_unfold comp_def)
qed

lemma get_playable_cards_nonempty:
  assumes ne: "hand a \<noteq> []"
  shows "get_playable_cards led a \<noteq> []"
proof (cases led)
  case None
  with ne show ?thesis by (simp add: get_playable_cards_def)
next
  case (Some col)
  show ?thesis
  proof (cases "can_follow_color col a")
    case False
    with Some ne show ?thesis by (simp add: get_playable_cards_def)
  next
    case True
    then obtain i where "i < length (hand a)" "color (hand a ! i) = col"
      by (auto simp: can_follow_color_iff in_set_conv_nth)
    then have "int i \<in> set (get_playable_cards led a)"
      using Some True set_follow_positions [of col a] by (auto simp: get_playable_cards_def)
    then show ?thesis by auto
  qed
qed

text \<open>
  C9: without a led color, or with no card of the led color in the hand, the playable
  positions are all positions of the hand; otherwise they are the positions of the cards of
  the led color and of the colorless cards. No position is listed twice, the list is not
  empty for a hand that is not empty, and it is empty for the empty hand.
\<close>

theorem C9_get_playable_cards:
  "(led = None \<or> (\<exists>col. led = Some col \<and> (\<forall>c \<in> set (hand a). color c \<noteq> col)) \<longrightarrow>
      set (get_playable_cards led a) = int ` {0..<length (hand a)}) \<and>
   (\<forall>col. led = Some col \<and> (\<exists>c \<in> set (hand a). color c = col) \<longrightarrow>
      set (get_playable_cards led a) =
        {int i | i. i < length (hand a) \<and> (color (hand a ! i) = col \<or> color (hand a ! i) = NONE)}) \<and>
   distinct (get_playable_cards led a) \<and>
   (hand a \<noteq> [] \<longrightarrow> get_playable_cards led a \<noteq> []) \<and>
   (hand a = [] \<longrightarrow> get_playable_cards led a = [])"
proof (intro conjI impI allI)
  assume "led = None \<or> (\<exists>col. led = Some col \<and> (\<forall>c \<in> set (hand a). color c \<noteq> col))"
  then show "set (get_playable_cards led a) = int ` {0..<length (hand a)}"
    by (auto simp: get_playable_cards_def can_follow_color_iff)
next
  fix col
  assume "led = Some col \<and> (\<exists>c \<in> set (hand a). color c = col)"
  then show "set (get_playable_cards led a) =
    {int i | i. i < length (hand a) \<and> (color (hand a ! i) = col \<or> color (hand a ! i) = NONE)}"
    using set_follow_positions [of col a] by (simp add: get_playable_cards_def can_follow_color_iff)
next
  show "distinct (get_playable_cards led a)"
  proof (cases led)
    case None
    then show ?thesis by (simp add: get_playable_cards_def distinct_map inj_on_def)
  next
    case (Some col)
    show ?thesis
    proof (cases "can_follow_color col a")
      case True
      with Some have "get_playable_cards led a =
        map (\<lambda>(i, c). int i)
          (filter (\<lambda>(i, c). color c = col \<or> color c = NONE) (enumerate 0 (hand a)))"
        by (simp add: get_playable_cards_def)
      then show ?thesis by (simp only: distinct_follow_positions)
    next
      case False
      with Some show ?thesis by (simp add: get_playable_cards_def distinct_map inj_on_def)
    qed
  qed
next
  assume "hand a \<noteq> []"
  then show "get_playable_cards led a \<noteq> []" by (rule get_playable_cards_nonempty)
next
  assume "hand a = []"
  then show "get_playable_cards led a = []"
    by (cases led) (simp_all add: get_playable_cards_def enumerate_eq_zip)
qed

lemma test_hand_cards:
  "hand test_hand =
     [regular_card HUMANS 5, regular_card HUMANS 10, regular_card DWARVES 7, wizard_card, fool_card]"
  by (simp add: test_hand_def receive_cards_def Apprentice_init_def)

theorem C9_get_playable_cards_witness:
  "set (get_playable_cards None test_hand) = int ` {0..<5} \<and>
   set (get_playable_cards (Some ELVES) test_hand) = int ` {0..<5} \<and>
   get_playable_cards (Some HUMANS) test_hand = [0, 1, 3, 4] \<and>
   hand test_hand \<noteq> [] \<and>
   get_playable_cards (Some HUMANS) test_hand \<noteq> [] \<and>
   hand (Apprentice_init ''Test Apprentice'') = [] \<and>
   get_playable_cards (Some HUMANS) (Apprentice_init ''Test Apprentice'') = []"
proof -
  have len: "length (hand test_hand) = 5" by (simp add: test_hand_cards)
  have none: "set (get_playable_cards None test_hand) = int ` {0..<5}"
    using C9_get_playable_cards [of None test_hand] len by simp
  have no_elves: "\<forall>c \<in> set (hand test_hand). color c \<noteq> ELVES"
    by (simp add: test_hand_cards example_card_defs)
  have elves: "set (get_playable_cards (Some ELVES) test_hand) = int ` {0..<5}"
    using C9_get_playable_cards [of "Some ELVES" test_hand] no_elves len by simp
  have humans: "get_playable_cards (Some HUMANS) test_hand = [0, 1, 3, 4]"
    by (simp add: get_playable_cards_def can_follow_color_def test_hand_cards example_card_defs
        enumerate_eq_zip upt_rec)
  have ne: "hand test_hand \<noteq> []" by (simp add: test_hand_cards)
  have playable: "get_playable_cards (Some HUMANS) test_hand \<noteq> []"
    using C9_get_playable_cards [of "Some HUMANS" test_hand] ne by blast
  have empty: "hand (Apprentice_init ''Test Apprentice'') = []"
    by (simp add: Apprentice_init_def)
  have no_position: "get_playable_cards (Some HUMANS) (Apprentice_init ''Test Apprentice'') = []"
    using C9_get_playable_cards [of "Some HUMANS" "Apprentice_init ''Test Apprentice''"] empty
    by blast
  from none elves humans ne playable empty no_position show ?thesis
    by (intro conjI)
qed

section \<open>Properties of trick.py\<close>

lemma dict_contains_iff: "dict_contains kvs k \<longleftrightarrow> k \<in> fst ` set kvs"
  by (induction kvs) (auto simp: dict_contains_def)

lemma dict_set_absent: "k \<notin> fst ` set kvs \<Longrightarrow> dict_set kvs k v = kvs @ [(k, v)]"
  by (induction kvs) auto

lemma length_dict_set: "length kvs \<le> length (dict_set kvs k v)"
  by (induction kvs) auto

lemma Trick_play_card_frame:
  "2 \<le> length (cards_played t) \<Longrightarrow> leading_color (snd (Trick_play_card a c t)) = leading_color t"
  by (auto simp: Trick_play_card_def Let_def)

lemma Trick_play_card_length:
  "length (cards_played t) \<le> length (cards_played (snd (Trick_play_card a c t)))"
  by (auto simp: Trick_play_card_def Let_def intro: order_trans [OF _ length_dict_set])

lemma play_all_frame:
  "2 \<le> length (cards_played t) \<Longrightarrow> leading_color (snd (play_all ps t)) = leading_color t"
proof (induction ps arbitrary: t)
  case Nil
  then show ?case by simp
next
  case (Cons p ps)
  obtain a c where p: "p = (a, c)" by (cases p)
  obtain r t' where step: "Trick_play_card a c t = (r, t')" by (cases "Trick_play_card a c t")
  have len: "2 \<le> length (cards_played t')"
    using Trick_play_card_length [of t a c] Cons.prems step by simp
  have lc: "leading_color t' = leading_color t"
    using Trick_play_card_frame [OF Cons.prems, of a c] step by simp
  show ?case
  proof (cases r)
    case (Inl e)
    with p step lc show ?thesis by simp
  next
    case (Inr ok)
    with p step lc Cons.IH [OF len] show ?thesis by simp
  qed
qed

lemma Trick_play_card_ok:
  assumes "\<not> is_complete t" and "a \<notin> fst ` set (cards_played t)"
  shows "fst (Trick_play_card a c t) = Inr True"
    and "cards_played (snd (Trick_play_card a c t)) = cards_played t @ [(a, c)]"
    and "\<not> is_complete (snd (Trick_play_card a c t))"
  using assms by (auto simp: Trick_play_card_def Let_def dict_contains_iff dict_set_absent)

lemma play_all_ok:
  "\<not> is_complete t \<Longrightarrow> distinct (map fst (cards_played t) @ map fst ps) \<Longrightarrow>
   fst (play_all ps t) = Inr True \<and> cards_played (snd (play_all ps t)) = cards_played t @ ps"
proof (induction ps arbitrary: t)
  case Nil
  then show ?case by simp
next
  case (Cons p ps)
  obtain a c where p: "p = (a, c)" by (cases p)
  from Cons.prems p have absent: "a \<notin> fst ` set (cards_played t)" by auto
  obtain r t' where step: "Trick_play_card a c t = (r, t')" by (cases "Trick_play_card a c t")
  from Trick_play_card_ok [OF Cons.prems(1) absent, of c] step
  have r: "r = Inr True" and cp: "cards_played t' = cards_played t @ [(a, c)]"
    and nc: "\<not> is_complete t'" by simp_all
  from Cons.prems(2) p cp have "distinct (map fst (cards_played t') @ map fst ps)" by auto
  from Cons.IH [OF nc this] p step r cp show ?case by simp
qed

text \<open>
  C2: for plays by distinct apprentices recorded in a new trick, every call returns and the
  leading color is the first card's color when the first card is Regular, else the second
  card's color when the second card is Regular, else undefined, whatever is played later.
  In any trick that holds two cards or more, \<open>play_card\<close> leaves the leading color as it is.
\<close>

theorem C2_leading_color:
  "(distinct (map fst ps) \<longrightarrow>
      fst (play_all ps (Trick_init leader trump)) = Inr True \<and>
      cards_played (snd (play_all ps (Trick_init leader trump))) = ps \<and>
      leading_color (snd (play_all ps (Trick_init leader trump))) =
        (case ps of
           [] \<Rightarrow> None
         | (a1, c1) # rest \<Rightarrow>
             if card_type c1 = REGULAR then Some (color c1)
             else (case rest of
                     [] \<Rightarrow> None
                   | (a2, c2) # later \<Rightarrow>
                       if card_type c2 = REGULAR then Some (color c2) else None))) \<and>
   (2 \<le> length (cards_played t) \<longrightarrow>
      leading_color (snd (Trick_play_card a c t)) = leading_color t)"
proof (intro conjI impI)
  assume d: "distinct (map fst ps)"
  let ?t0 = "Trick_init leader trump"
  have t0: "\<not> is_complete ?t0" "cards_played ?t0 = []" "leading_color ?t0 = None"
    by (simp_all add: Trick_init_def)
  from play_all_ok [of ?t0 ps] d t0
  show "fst (play_all ps ?t0) = Inr True" and "cards_played (snd (play_all ps ?t0)) = ps"
    by simp_all
  show "leading_color (snd (play_all ps ?t0)) =
        (case ps of
           [] \<Rightarrow> None
         | (a1, c1) # rest \<Rightarrow>
             if card_type c1 = REGULAR then Some (color c1)
             else (case rest of
                     [] \<Rightarrow> None
                   | (a2, c2) # later \<Rightarrow>
                       if card_type c2 = REGULAR then Some (color c2) else None))"
  proof (cases ps)
    case Nil
    with t0 show ?thesis by simp
  next
    case ps1: (Cons p1 rest)
    obtain a1 c1 where p1: "p1 = (a1, c1)" by (cases p1)
    define t1 where "t1 = snd (Trick_play_card a1 c1 ?t0)"
    have s1: "Trick_play_card a1 c1 ?t0 = (Inr True, t1)"
      by (simp add: t1_def Trick_play_card_def Trick_init_def dict_contains_def)
    have t1: "\<not> is_complete t1" "cards_played t1 = [(a1, c1)]"
      "leading_color t1 = (if card_type c1 = REGULAR then Some (color c1) else None)"
      by (simp_all add: t1_def Trick_play_card_def Trick_init_def dict_contains_def)
    show ?thesis
    proof (cases rest)
      case Nil
      with ps1 p1 s1 t1 show ?thesis by simp
    next
      case ps2: (Cons p2 later)
      obtain a2 c2 where p2: "p2 = (a2, c2)" by (cases p2)
      from d ps1 ps2 p1 p2 have ne: "a2 \<noteq> a1" by auto
      define t2 where "t2 = snd (Trick_play_card a2 c2 t1)"
      have s2: "Trick_play_card a2 c2 t1 = (Inr True, t2)"
        using t1 ne by (simp add: t2_def Trick_play_card_def dict_contains_def)
      have t2: "length (cards_played t2) = 2"
        "leading_color t2 =
           (if card_type c1 = REGULAR then Some (color c1)
            else if card_type c2 = REGULAR then Some (color c2) else None)"
        using t1 ne by (simp_all add: t2_def Trick_play_card_def dict_contains_def)
      have "leading_color (snd (play_all later t2)) = leading_color t2"
        using play_all_frame [of t2 later] t2(1) by simp
      with ps1 ps2 p1 p2 s1 s2 t2(2) show ?thesis by simp
    qed
  qed
next
  assume "2 \<le> length (cards_played t)"
  then show "leading_color (snd (Trick_play_card a c t)) = leading_color t"
    by (rule Trick_play_card_frame)
qed

lemmas play_defs =
  Trick_init_def Trick_play_card_def dict_contains_def Let_def example_card_defs

lemma example_tricks:
  "cards_played fools_first_trick = fools_first_plays"
  "leading_color fools_first_trick = None"
  "Trick.trump_color fools_first_trick = None"
  "cards_played led_trick = led_plays"
  "leading_color led_trick = Some HUMANS"
  "Trick.trump_color led_trick = Some DWARVES"
  "cards_played all_fools_trick = all_fools_plays"
  "winner all_fools_trick = None"
  "is_complete all_fools_trick = False"
  "cards_played wizard_trick = wizard_plays"
  by (simp_all add: fools_first_trick_def fools_first_plays_def led_trick_def led_plays_def
      all_fools_trick_def all_fools_plays_def wizard_trick_def wizard_plays_def play_defs)

theorem C2_leading_color_witness:
  "distinct (map fst specials_first_plays) \<and>
   leading_color (snd (play_all specials_first_plays (Trick_init (Some 1) (Some DWARVES)))) = None \<and>
   leading_color (snd (play_all [(1, fool_card), (2, regular_card ELVES 10)]
                        (Trick_init (Some 1) (Some DWARVES)))) = Some ELVES \<and>
   leading_color (snd (play_all [(1, wizard_card), (2, fool_card)]
                        (Trick_init (Some 1) (Some DWARVES)))) = None \<and>
   2 \<le> length (cards_played all_fools_trick) \<and>
   leading_color (snd (Trick_play_card 4 (regular_card ELVES 10) all_fools_trick)) =
     leading_color all_fools_trick"
proof -
  have d: "distinct (map fst specials_first_plays)" by (simp add: specials_first_plays_def)
  have a: "leading_color (snd (play_all specials_first_plays
             (Trick_init (Some 1) (Some DWARVES)))) = None"
    using C2_leading_color [of specials_first_plays "Some 1" "Some DWARVES"] d
    by (simp add: specials_first_plays_def example_card_defs)
  have b: "leading_color (snd (play_all [(1, fool_card), (2, regular_card ELVES 10)]
             (Trick_init (Some 1) (Some DWARVES)))) = Some ELVES"
    using C2_leading_color [of "[(1, fool_card), (2, regular_card ELVES 10)]" "Some 1" "Some DWARVES"]
    by (simp add: example_card_defs)
  have c: "leading_color (snd (play_all [(1, wizard_card), (2, fool_card)]
             (Trick_init (Some 1) (Some DWARVES)))) = None"
    using C2_leading_color [of "[(1, wizard_card), (2, fool_card)]" "Some 1" "Some DWARVES"]
    by (simp add: example_card_defs)
  have len: "2 \<le> length (cards_played all_fools_trick)"
    by (simp add: example_tricks all_fools_plays_def)
  have f: "leading_color (snd (Trick_play_card 4 (regular_card ELVES 10) all_fools_trick)) =
     leading_color all_fools_trick"
    using C2_leading_color [of "[]" None None all_fools_trick 4 "regular_card ELVES 10"] len
    by blast
  from d a b c len f show ?thesis by (intro conjI)
qed

text \<open>
  C3: in a trick with at least one play, when every card is a Fool the first player of the
  play order is returned; when a Wizard was played, the player of the first Wizard in play
  order is returned, whatever the other cards, the trump color and the leading color are.
\<close>

theorem C3_determine_winner:
  "(cards_played t \<noteq> [] \<and> (\<forall>p \<in> set (cards_played t). card_type (snd p) = FOOL) \<longrightarrow>
      fst (determine_winner t) = Inr (Some (fst (hd (cards_played t))))) \<and>
   (i < length (cards_played t) \<and> card_type (snd (cards_played t ! i)) = WIZARD \<and>
    (\<forall>j < i. card_type (snd (cards_played t ! j)) \<noteq> WIZARD) \<longrightarrow>
      fst (determine_winner t) = Inr (Some (fst (cards_played t ! i))))"
proof (intro conjI impI)
  assume h: "cards_played t \<noteq> [] \<and> (\<forall>p \<in> set (cards_played t). card_type (snd p) = FOOL)"
  then have all: "list_all (\<lambda>(apprentice, c). card_type c = FOOL) (cards_played t)"
    by (simp add: list_all_iff case_prod_beta)
  from h obtain a b rest where ps: "cards_played t = (a, b) # rest"
    by (cases "cards_played t") auto
  from all show "fst (determine_winner t) = Inr (Some (fst (hd (cards_played t))))"
    unfolding determine_winner_def ps by simp
next
  let ?ps = "cards_played t"
  let ?W = "\<lambda>(apprentice, c). card_type c = WIZARD"
  assume h: "i < length ?ps \<and> card_type (snd (?ps ! i)) = WIZARD \<and>
    (\<forall>j < i. card_type (snd (?ps ! j)) \<noteq> WIZARD)"
  then have "find ?W ?ps = Some (?ps ! i)"
    unfolding find_Some_iff by (auto simp: case_prod_beta)
  moreover have "\<not> list_all (\<lambda>(apprentice, c). card_type c = FOOL) ?ps"
  proof
    assume "list_all (\<lambda>(apprentice, c). card_type c = FOOL) ?ps"
    then have "\<forall>n < length ?ps. card_type (snd (?ps ! n)) = FOOL"
      by (simp add: list_all_length case_prod_beta)
    with h have "card_type (snd (?ps ! i)) = FOOL" by blast
    with h show False by simp
  qed
  moreover from h have "?ps \<noteq> []" by auto
  ultimately show "fst (determine_winner t) = Inr (Some (fst (?ps ! i)))"
    by (cases "?ps ! i") (auto simp: determine_winner_def split: list.splits)
qed

theorem C3_determine_winner_witness:
  "cards_played all_fools_trick = [(1, fool_card), (2, fool_card), (3, fool_card)] \<and>
   fst (determine_winner all_fools_trick) = Inr (Some 1) \<and>
   cards_played wizard_trick =
     [(1, regular_card DWARVES 13), (2, wizard_card), (3, regular_card HUMANS 10)] \<and>
   fst (determine_winner wizard_trick) = Inr (Some 2)"
proof -
  have a: "cards_played all_fools_trick = [(1, fool_card), (2, fool_card), (3, fool_card)]"
    by (simp add: example_tricks all_fools_plays_def)
  have w: "cards_played wizard_trick =
     [(1, regular_card DWARVES 13), (2, wizard_card), (3, regular_card HUMANS 10)]"
    by (simp add: example_tricks wizard_plays_def)
  have fools: "fst (determine_winner all_fools_trick) = Inr (Some 1)"
    using C3_determine_winner [of all_fools_trick 0] by (simp add: a example_card_defs)
  have wizard: "fst (determine_winner wizard_trick) = Inr (Some 2)"
    using C3_determine_winner [of wizard_trick 1] by (simp add: w example_card_defs)
  from a fools w wizard show ?thesis by (intro conjI)
qed

lemma ranks_above_all_iff:
  "ranks_above_all ps trump led i \<longleftrightarrow>
     i < length ps \<and> card_type (snd (ps ! i)) \<noteq> FOOL \<and>
     (\<forall>j < length ps. j \<noteq> i \<and> card_type (snd (ps ! j)) \<noteq> FOOL \<longrightarrow>
        ranks_higher (snd (ps ! i)) (snd (ps ! j)) trump led)"
  by (auto simp: ranks_above_all_def list_all_iff)

lemma foldl_keep_best_mem: "foldl (keep_best trump led) b xs \<in> set (b # xs)"
  by (induction xs arbitrary: b) (auto simp: keep_best_def)

lemma foldl_keep_best_stays:
  "\<forall>q \<in> set xs. \<not> ranks_higher (snd q) (snd m) trump led \<Longrightarrow>
   foldl (keep_best trump led) m xs = m"
  by (induction xs) (auto simp: keep_best_def)

lemma foldl_keep_best_dominant:
  assumes before: "\<forall>q \<in> set pre. ranks_higher (snd m) (snd q) trump led"
    and after: "\<forall>q \<in> set post. \<not> ranks_higher (snd q) (snd m) trump led"
  shows "(case pre @ m # post of [] \<Rightarrow> None | p # rest \<Rightarrow> Some (foldl (keep_best trump led) p rest))
         = Some m"
proof (cases pre)
  case Nil
  with after show ?thesis by (simp add: foldl_keep_best_stays)
next
  case (Cons b pre')
  let ?x = "foldl (keep_best trump led) b pre'"
  have "?x \<in> set pre" using foldl_keep_best_mem [of trump led b pre'] Cons by simp
  with before have "ranks_higher (snd m) (snd ?x) trump led" by blast
  then have "keep_best trump led ?x m = m" by (simp add: keep_best_def)
  with Cons after show ?thesis by (simp add: foldl_keep_best_stays)
qed

lemma highest_loop_running:
  assumes "valid_card h" and "\<forall>p \<in> set ps. valid_card (snd p)"
  shows "highest_loop ps trump led (Some h, Some a) =
         Inr (Some (snd (foldl (keep_best trump led) (a, h) (candidates ps))),
              Some (fst (foldl (keep_best trump led) (a, h) (candidates ps))))"
  using assms
proof (induction ps arbitrary: h a)
  case Nil
  then show ?case by (simp add: candidates_def)
next
  case (Cons p ps)
  obtain b c where p: "p = (b, c)" by (cases p)
  from Cons.prems p have vc: "valid_card c" and vps: "\<forall>p \<in> set ps. valid_card (snd p)" by auto
  show ?case
  proof (cases "card_type c = FOOL")
    case True
    with p Cons.IH [OF Cons.prems(1) vps] show ?thesis by (simp add: candidates_def)
  next
    case False
    have cmp: "is_higher_than c h trump led = Inr (ranks_higher c h trump led)"
      using vc Cons.prems(1) by (rule is_higher_than_valid)
    show ?thesis
    proof (cases "ranks_higher c h trump led")
      case True
      with False p cmp Cons.IH [OF vc vps, of b] show ?thesis
        by (simp add: candidates_def keep_best_def)
    next
      case no: False
      with False p cmp Cons.IH [OF Cons.prems(1) vps, of a] show ?thesis
        by (simp add: candidates_def keep_best_def)
    qed
  qed
qed

lemma highest_loop_fold:
  assumes "\<forall>p \<in> set ps. valid_card (snd p)"
  shows "highest_loop ps trump led (None, None) =
         Inr (map_option snd (fold_ranks_higher ps trump led),
              map_option fst (fold_ranks_higher ps trump led))"
  using assms
proof (induction ps)
  case Nil
  then show ?case by (simp add: fold_ranks_higher_def candidates_def)
next
  case (Cons p ps)
  obtain b c where p: "p = (b, c)" by (cases p)
  from Cons.prems p have vc: "valid_card c" and vps: "\<forall>p \<in> set ps. valid_card (snd p)" by auto
  show ?case
  proof (cases "card_type c = FOOL")
    case True
    with p Cons.IH [OF vps] show ?thesis by (simp add: fold_ranks_higher_def candidates_def)
  next
    case False
    with p highest_loop_running [OF vc vps, of trump led b] show ?thesis
      by (simp add: fold_ranks_higher_def candidates_def)
  qed
qed

lemma fold_ranks_higher_mem:
  "fold_ranks_higher ps trump led = Some best \<Longrightarrow> best \<in> set (candidates ps)"
  using foldl_keep_best_mem [of trump led "hd (candidates ps)" "tl (candidates ps)"]
  by (cases "candidates ps") (auto simp: fold_ranks_higher_def)

lemma fold_ranks_higher_dominant:
  assumes nw: "\<forall>p \<in> set ps. card_type (snd p) \<noteq> WIZARD"
    and dom: "ranks_above_all ps trump led i"
  shows "fold_ranks_higher ps trump led = Some (ps ! i)"
proof -
  let ?m = "ps ! i"
  from dom have i: "i < length ps" and nf: "card_type (snd ?m) \<noteq> FOOL"
    and above: "\<And>j. j < length ps \<Longrightarrow> j \<noteq> i \<Longrightarrow> card_type (snd (ps ! j)) \<noteq> FOOL \<Longrightarrow>
       ranks_higher (snd ?m) (snd (ps ! j)) trump led"
    by (simp_all add: ranks_above_all_iff)
  have split: "ps = take i ps @ ?m # drop (Suc i) ps" using i by (rule id_take_nth_drop)
  have cand: "candidates ps = candidates (take i ps) @ ?m # candidates (drop (Suc i) ps)"
    using nf by (subst split) (simp add: candidates_def case_prod_beta)
  have before: "\<forall>q \<in> set (candidates (take i ps)). ranks_higher (snd ?m) (snd q) trump led"
  proof
    fix q assume "q \<in> set (candidates (take i ps))"
    then have q: "q \<in> set (take i ps)" and qf: "card_type (snd q) \<noteq> FOOL"
      by (auto simp: candidates_def)
    from q obtain j where "j < i" "q = ps ! j"
      using i by (auto simp: in_set_conv_nth)
    with above [of j] i qf show "ranks_higher (snd ?m) (snd q) trump led" by simp
  qed
  have after: "\<forall>q \<in> set (candidates (drop (Suc i) ps)). \<not> ranks_higher (snd q) (snd ?m) trump led"
  proof
    fix q assume "q \<in> set (candidates (drop (Suc i) ps))"
    then have q: "q \<in> set (drop (Suc i) ps)" and qf: "card_type (snd q) \<noteq> FOOL"
      by (auto simp: candidates_def)
    from q obtain k where "k < length ps - Suc i" "q = ps ! (Suc i + k)"
      by (auto simp: in_set_conv_nth)
    with above [of "Suc i + k"] qf have up: "ranks_higher (snd ?m) (snd q) trump led" by simp
    from nw i have "card_type (snd ?m) \<noteq> WIZARD" by simp
    with up show "\<not> ranks_higher (snd q) (snd ?m) trump led"
      unfolding ranks_higher_def using is_higher_than_asym by blast
  qed
  show ?thesis
    unfolding fold_ranks_higher_def cand
    using before after by (rule foldl_keep_best_dominant)
qed

lemma determine_winner_loop:
  assumes "\<not> list_all (\<lambda>(apprentice, c). card_type c = FOOL) (cards_played t)"
    and "find (\<lambda>(apprentice, c). card_type c = WIZARD) (cards_played t) = None"
  shows "determine_winner t =
    (case highest_loop (cards_played t) (Trick.trump_color t) (leading_color t) (None, None) of
       Inl e \<Rightarrow> (Inl e, t)
     | Inr (highest_card, highest_apprentice) \<Rightarrow>
         (Inr highest_apprentice, t\<lparr>winner := highest_apprentice\<rparr>))"
proof (cases "cards_played t")
  case Nil
  with assms(1) show ?thesis by simp
next
  case (Cons p rest)
  obtain a c where p: "p = (a, c)" by (cases p)
  have "determine_winner t =
    (if list_all (\<lambda>(apprentice, c). card_type c = FOOL) (cards_played t) then
       (Inr (Some a), t)
     else
       (case find (\<lambda>(apprentice, c). card_type c = WIZARD) (cards_played t) of
          Some (apprentice, c) \<Rightarrow> (Inr (Some apprentice), t\<lparr>winner := Some apprentice\<rparr>)
        | None \<Rightarrow>
            (case highest_loop (cards_played t) (Trick.trump_color t) (leading_color t)
                    (None, None) of
               Inl e \<Rightarrow> (Inl e, t)
             | Inr (highest_card, highest_apprentice) \<Rightarrow>
                 (Inr highest_apprentice, t\<lparr>winner := highest_apprentice\<rparr>))))"
    unfolding determine_winner_def by (simp only: Cons p list.case prod.case)
  with assms show ?thesis by (simp only: if_False option.case)
qed

text \<open>
  C1, as the code has it. The first two cards are Fools, so no leading color is set, and
  there is no trump: the fold keeps the first Regular card and apprentice 3 wins, although
  the card does not rank higher than the other Regular card, and no card played ranks
  higher than every other.
\<close>

theorem C1_winner_without_highest_card:
  "cards_played fools_first_trick =
     [(1, fool_card), (2, fool_card), (3, regular_card DWARVES 5), (4, regular_card HUMANS 7)] \<and>
   Trick.trump_color fools_first_trick = None \<and>
   leading_color fools_first_trick = None \<and>
   fst (determine_winner fools_first_trick) = Inr (Some 3) \<and>
   is_higher_than (regular_card DWARVES 5) (regular_card HUMANS 7) None None = Inr False \<and>
   \<not> (\<exists>i. ranks_above_all (cards_played fools_first_trick)
            (Trick.trump_color fools_first_trick) (leading_color fools_first_trick) i)"
proof -
  have ps: "cards_played fools_first_trick =
     [(1, fool_card), (2, fool_card), (3, regular_card DWARVES 5), (4, regular_card HUMANS 7)]"
    by (simp add: example_tricks fools_first_plays_def)
  have win: "fst (determine_winner fools_first_trick) = Inr (Some 3)"
    by (simp add: determine_winner_def example_tricks fools_first_plays_def example_card_defs
        is_higher_than_def)
  have cmp: "is_higher_than (regular_card DWARVES 5) (regular_card HUMANS 7) None None = Inr False"
    by (simp add: is_higher_than_def example_card_defs)
  have none: "\<not> (\<exists>i. ranks_above_all (cards_played fools_first_trick)
            (Trick.trump_color fools_first_trick) (leading_color fools_first_trick) i)"
  proof
    assume "\<exists>i. ranks_above_all (cards_played fools_first_trick)
            (Trick.trump_color fools_first_trick) (leading_color fools_first_trick) i"
    then obtain i where r: "ranks_above_all
        [(1, fool_card), (2, fool_card), (3, regular_card DWARVES 5), (4, regular_card HUMANS 7)]
        None None i"
      by (auto simp: ps example_tricks)
    then have "i < 4" by (simp add: ranks_above_all_def)
    then consider "i = 0" | "i = 1" | "i = 2" | "i = 3" by linarith
    then show False
    proof cases
      case 1
      with r show False by (simp add: ranks_above_all_def example_card_defs)
    next
      case 2
      with r show False by (simp add: ranks_above_all_def example_card_defs)
    next
      case 3
      with r show False
        by (simp add: ranks_above_all_def example_card_defs ranks_higher_def is_higher_than_def
            upt_rec)
    next
      case 4
      with r show False
        by (simp add: ranks_above_all_def example_card_defs ranks_higher_def is_higher_than_def
            upt_rec)
    qed
  qed
  from ps win cmp none show ?thesis by (simp only: example_tricks simp_thms)
qed

text \<open>
  C1, amended: in a trick whose cards come from the constructor, with no Wizard and not
  only Fools, \<open>determine_winner\<close> returns and records the holder of the card that the fold
  of \<open>ranks_higher\<close> over the candidates yields, and that card was played and is not a Fool.
  Whenever a card played ranks higher than every other candidate, the fold yields that
  card.
\<close>

theorem C1_determine_winner_fold:
  assumes valid: "\<forall>p \<in> set (cards_played t). valid_card (snd p)"
    and no_wizard: "\<forall>p \<in> set (cards_played t). card_type (snd p) \<noteq> WIZARD"
    and some: "\<exists>p \<in> set (cards_played t). card_type (snd p) \<noteq> FOOL"
  shows "\<exists>best.
     fold_ranks_higher (cards_played t) (Trick.trump_color t) (leading_color t) = Some best \<and>
     best \<in> set (cards_played t) \<and> card_type (snd best) \<noteq> FOOL \<and>
     determine_winner t = (Inr (Some (fst best)), t\<lparr>winner := Some (fst best)\<rparr>) \<and>
     (\<forall>i. ranks_above_all (cards_played t) (Trick.trump_color t) (leading_color t) i \<longrightarrow>
        best = cards_played t ! i)"
proof -
  let ?ps = "cards_played t"
  let ?f = "fold_ranks_higher ?ps (Trick.trump_color t) (leading_color t)"
  from some have cne: "candidates ?ps \<noteq> []"
    by (auto simp: candidates_def filter_empty_conv)
  then obtain best where best: "?f = Some best"
    by (cases "candidates ?ps") (auto simp: fold_ranks_higher_def)
  from fold_ranks_higher_mem [OF best]
  have mem: "best \<in> set ?ps" and nf: "card_type (snd best) \<noteq> FOOL"
    by (auto simp: candidates_def)
  from some have not_all: "\<not> list_all (\<lambda>(apprentice, c). card_type c = FOOL) ?ps"
    by (auto simp: list_all_iff)
  from no_wizard have no_find: "find (\<lambda>(apprentice, c). card_type c = WIZARD) ?ps = None"
    by (auto simp: find_None_iff)
  have loop: "highest_loop ?ps (Trick.trump_color t) (leading_color t) (None, None) =
     Inr (Some (snd best), Some (fst best))"
    using highest_loop_fold [OF valid, of "Trick.trump_color t" "leading_color t"] best by simp
  have win: "determine_winner t = (Inr (Some (fst best)), t\<lparr>winner := Some (fst best)\<rparr>)"
    using determine_winner_loop [OF not_all no_find] loop by simp
  have dom: "\<forall>i. ranks_above_all ?ps (Trick.trump_color t) (leading_color t) i \<longrightarrow> best = ?ps ! i"
    using fold_ranks_higher_dominant [OF no_wizard] best by auto
  show ?thesis
  proof (intro exI conjI)
    show "?f = Some best" by (fact best)
    show "best \<in> set ?ps" by (fact mem)
    show "card_type (snd best) \<noteq> FOOL" by (fact nf)
    show "determine_winner t = (Inr (Some (fst best)), t\<lparr>winner := Some (fst best)\<rparr>)"
      by (fact win)
    show "\<forall>i. ranks_above_all ?ps (Trick.trump_color t) (leading_color t) i \<longrightarrow> best = ?ps ! i"
      by (fact dom)
  qed
qed

theorem C1_determine_winner_fold_witness:
  "cards_played led_trick =
     [(1, regular_card HUMANS 8), (2, regular_card HUMANS 10), (3, regular_card ELVES 13)] \<and>
   list_all (\<lambda>p. valid_card (snd p) \<and> card_type (snd p) = REGULAR) (cards_played led_trick) \<and>
   ranks_above_all (cards_played led_trick) (Trick.trump_color led_trick)
     (leading_color led_trick) 1 \<and>
   fold_ranks_higher (cards_played led_trick) (Trick.trump_color led_trick)
     (leading_color led_trick) = Some (2, regular_card HUMANS 10) \<and>
   fst (determine_winner led_trick) = Inr (Some 2) \<and>
   winner (snd (determine_winner led_trick)) = Some 2"
proof -
  have ps: "cards_played led_trick =
     [(1, regular_card HUMANS 8), (2, regular_card HUMANS 10), (3, regular_card ELVES 13)]"
    by (simp add: example_tricks led_plays_def)
  have reg: "list_all (\<lambda>p. valid_card (snd p) \<and> card_type (snd p) = REGULAR)
     (cards_played led_trick)"
    by (simp add: ps valid_card_def example_card_defs)
  then have valid: "\<forall>p \<in> set (cards_played led_trick). valid_card (snd p)"
    and no_wizard: "\<forall>p \<in> set (cards_played led_trick). card_type (snd p) \<noteq> WIZARD"
    and some: "\<exists>p \<in> set (cards_played led_trick). card_type (snd p) \<noteq> FOOL"
    by (auto simp: list_all_iff ps)
  have dom: "ranks_above_all (cards_played led_trick) (Trick.trump_color led_trick)
     (leading_color led_trick) 1"
    by (simp add: ps example_tricks ranks_above_all_def ranks_higher_def is_higher_than_def
        example_card_defs upt_rec)
  from C1_determine_winner_fold [OF valid no_wizard some] obtain best where
    best: "fold_ranks_higher (cards_played led_trick) (Trick.trump_color led_trick)
             (leading_color led_trick) = Some best"
    and win: "determine_winner led_trick =
             (Inr (Some (fst best)), led_trick\<lparr>winner := Some (fst best)\<rparr>)"
    and high: "\<forall>i. ranks_above_all (cards_played led_trick) (Trick.trump_color led_trick)
             (leading_color led_trick) i \<longrightarrow> best = cards_played led_trick ! i"
    by blast
  from high dom have "best = cards_played led_trick ! 1" by blast
  then have b: "best = (2, regular_card HUMANS 10)" by (simp add: ps)
  from best b have f: "fold_ranks_higher (cards_played led_trick) (Trick.trump_color led_trick)
     (leading_color led_trick) = Some (2, regular_card HUMANS 10)" by simp
  from win b have w1: "fst (determine_winner led_trick) = Inr (Some 2)"
    and w2: "winner (snd (determine_winner led_trick)) = Some 2" by simp_all
  from ps reg dom f w1 w2 show ?thesis by (intro conjI)
qed

text \<open>
  C7, at the failing input: three Fools played by apprentices 1, 2 and 3. \<open>complete_trick\<close>
  returns apprentice 1 and counts the trick for it, and the trick's \<open>winner\<close> is still
  \<open>None\<close>: the all-Fools branch of \<open>determine_winner\<close> returns without the assignment that
  the two other branches make.
\<close>

theorem C7_all_fools_winner_not_recorded:
  "cards_played all_fools_trick = [(1, fool_card), (2, fool_card), (3, fool_card)] \<and>
   fst (complete_trick all_fools_trick h) = Inr (Some 1) \<and>
   winner (fst (snd (complete_trick all_fools_trick h))) = None \<and>
   is_complete (fst (snd (complete_trick all_fools_trick h))) = True \<and>
   tricks_won (snd (snd (complete_trick all_fools_trick h)) 1) = tricks_won (h 1) + 1 \<and>
   fst (determine_winner wizard_trick) = Inr (Some 2) \<and>
   winner (snd (determine_winner wizard_trick)) = Some 2"
  by (simp add: complete_trick_def determine_winner_def win_trick_def example_tricks
      all_fools_plays_def wizard_plays_def example_card_defs)

section \<open>Properties of deck.py and round.py\<close>

lemma Deck_init_new_deck: "Deck_init = Inr new_deck"
  by code_simp

lemma mset_rotate_eq: "mset (rotate n xs) = mset xs"
proof -
  let ?k = "n mod length xs"
  have "mset xs = mset (take ?k xs @ drop ?k xs)" by simp
  also have "\<dots> = mset (take ?k xs) + mset (drop ?k xs)" by (simp only: mset_append)
  also have "\<dots> = mset (drop ?k xs) + mset (take ?k xs)" by (rule add.commute)
  finally have "mset (drop ?k xs) + mset (take ?k xs) = mset xs" by simp
  then show ?thesis by (simp add: rotate_drop_take)
qed

lemma shuffled_order_shuffle: "shuffle_of shuffled_order new_deck"
  by (simp add: shuffle_of_def shuffled_order_def mset_rotate_eq)

lemma round_created: "Round_init 8 [1, 2, 3] 2 = Inr round_created"
  by code_simp

lemma round_dealt:
  "fst round_dealt = Inr (Some (regular_card ELVES 4))"
  "phase (snd (snd round_dealt)) = PREDICTING"
  "apprentices (snd (snd round_dealt)) = [1, 2, 3]"
  "cards_per_apprentice (snd (snd round_dealt)) = 8"
  "map (\<lambda>a. prediction (fst (snd round_dealt) a)) [1, 2, 3] = [None, None, None]"
  by code_simp+

lemma get_playable_cards_in_range:
  assumes "i \<in> set (get_playable_cards led a)"
  shows "0 \<le> i \<and> i < int (length (hand a))"
proof (cases led)
  case None
  with assms show ?thesis by (auto simp: get_playable_cards_def)
next
  case (Some col)
  show ?thesis
  proof (cases "can_follow_color col a")
    case True
    with Some assms have "i \<in> {int i | i. i < length (hand a) \<and>
        (color (hand a ! i) = col \<or> color (hand a ! i) = NONE)}"
      using set_follow_positions [of col a] by (simp add: get_playable_cards_def)
    then show ?thesis by auto
  next
    case False
    with Some assms show ?thesis by (auto simp: get_playable_cards_def)
  qed
qed

lemma Round_play_card_not_playable:
  assumes "phase r = PLAYING"
    and "list_get (apprentices r) (current_apprentice_index r) = Inr a"
    and "current_trick r = Some t"
    and "i \<notin> set (get_playable_cards (leading_color t) (h a))"
  shows "Round_play_card a i h r = (Inr False, h, r)"
  using assms by (simp add: Round_play_card_def)

lemma start_first_trick_returns:
  assumes "apprentices r \<noteq> []"
  shows "\<exists>r'. start_first_trick r = Inr r'"
proof -
  let ?n = "int (length (apprentices r))"
  let ?i = "(dealer_index r + 1) mod ?n"
  from assms have "0 < ?n" by simp
  then have "0 \<le> ?i \<and> ?i < ?n" by simp
  then have "list_get (apprentices r) ?i = Inr (apprentices r ! nat ?i)"
    by (simp add: list_get_def)
  with assms show ?thesis by (simp add: start_first_trick_def Let_def)
qed

text \<open>
  C8, as the code has it. After the deal apprentice 1 predicts 1, which is recorded; the
  round is still in the predicting phase. Apprentice 1 then predicts 0: the call is
  accepted and 0 replaces the recorded prediction.
\<close>

theorem C8_prediction_replaced:
  "Round_init 8 [1, 2, 3] 2 = Inr round_created \<and>
   phase (snd (snd round_dealt)) = PREDICTING \<and>
   fst (after_calls [Predict 1 1]) = Inr True \<and>
   prediction (fst (snd (after_calls [Predict 1 1])) 1) = Some 1 \<and>
   phase (snd (snd (after_calls [Predict 1 1]))) = PREDICTING \<and>
   fst (after_calls [Predict 1 1, Predict 1 0]) = Inr True \<and>
   prediction (fst (snd (after_calls [Predict 1 1, Predict 1 0])) 1) = Some 0"
  by (intro conjI; code_simp)

text \<open>
  C8, amended: in the predicting phase of a round with apprentices, a prediction between 0
  and the number of cards per apprentice is accepted from any apprentice, with or without
  a recorded prediction, and becomes that apprentice's prediction; no other apprentice's
  fields change. A prediction outside the range is answered \<open>False\<close> and changes nothing.
\<close>

theorem C8_make_prediction_records:
  assumes "phase r = PREDICTING" and "apprentices r \<noteq> []"
  shows "(0 \<le> p \<and> p \<le> cards_per_apprentice r \<longrightarrow>
           fst (Round_make_prediction a p h r) = Inr True \<and>
           prediction (fst (snd (Round_make_prediction a p h r)) a) = Some p \<and>
           (\<forall>b. b \<noteq> a \<longrightarrow> fst (snd (Round_make_prediction a p h r)) b = h b)) \<and>
         (p < 0 \<or> cards_per_apprentice r < p \<longrightarrow>
           Round_make_prediction a p h r = (Inr False, h, r))"
proof (intro conjI impI)
  assume range: "0 \<le> p \<and> p \<le> cards_per_apprentice r"
  let ?h = "h(a := (h a)\<lparr>prediction := Some p\<rparr>)"
  from assms(2) have "apprentices (r\<lparr>phase := PLAYING\<rparr>) \<noteq> []" by simp
  from start_first_trick_returns [OF this]
  obtain r' where first: "start_first_trick (r\<lparr>phase := PLAYING\<rparr>) = Inr r'" by blast
  have res: "Round_make_prediction a p h r =
    (Inr True, ?h,
     if list_all (\<lambda>b. prediction (?h b) \<noteq> None) (apprentices r) then r' else r)"
    using assms(1) range first
    by (simp add: Round_make_prediction_def Apprentice_make_prediction_def Let_def)
  show "fst (Round_make_prediction a p h r) = Inr True" by (simp add: res)
  show "prediction (fst (snd (Round_make_prediction a p h r)) a) = Some p" by (simp add: res)
  show "\<forall>b. b \<noteq> a \<longrightarrow> fst (snd (Round_make_prediction a p h r)) b = h b" by (simp add: res)
next
  assume "p < 0 \<or> cards_per_apprentice r < p"
  with assms(1) show "Round_make_prediction a p h r = (Inr False, h, r)"
    by (auto simp: Round_make_prediction_def)
qed

theorem C8_make_prediction_records_witness:
  "phase (snd (snd (after_calls [Predict 1 1]))) = PREDICTING \<and>
   apprentices (snd (snd (after_calls [Predict 1 1]))) = [1, 2, 3] \<and>
   cards_per_apprentice (snd (snd (after_calls [Predict 1 1]))) = 8 \<and>
   prediction (fst (snd (after_calls [Predict 1 1])) 1) = Some 1 \<and>
   fst (Round_make_prediction 1 0 (fst (snd (after_calls [Predict 1 1])))
          (snd (snd (after_calls [Predict 1 1])))) = Inr True \<and>
   prediction (fst (snd (Round_make_prediction 1 0 (fst (snd (after_calls [Predict 1 1])))
          (snd (snd (after_calls [Predict 1 1]))))) 1) = Some 0 \<and>
   fst (Round_make_prediction 1 9 (fst (snd (after_calls [Predict 1 1])))
          (snd (snd (after_calls [Predict 1 1])))) = Inr False"
proof -
  let ?h = "fst (snd (after_calls [Predict 1 1]))"
  let ?r = "snd (snd (after_calls [Predict 1 1]))"
  have ph: "phase ?r = PREDICTING" by code_simp
  have ap: "apprentices ?r = [1, 2, 3]" by code_simp
  have cp: "cards_per_apprentice ?r = 8" by code_simp
  have p1: "prediction (?h 1) = Some 1" by code_simp
  from ap have ne: "apprentices ?r \<noteq> []" by simp
  have ok: "fst (Round_make_prediction 1 0 ?h ?r) = Inr True"
    and rec: "prediction (fst (snd (Round_make_prediction 1 0 ?h ?r)) 1) = Some 0"
    using C8_make_prediction_records [OF ph ne, of 0 1 ?h] cp by simp_all
  have no: "fst (Round_make_prediction 1 9 ?h ?r) = Inr False"
    using C8_make_prediction_records [OF ph ne, of 9 1 ?h] cp by simp
  from ph ap cp p1 ok rec no show ?thesis by (intro conjI)
qed

text \<open>
  C6, as the code has it. In the playing phase apprentice 1, whose turn it is, holds 8
  cards. Playing position 8, or position -1, is answered \<open>False\<close>: no exception is raised.
\<close>

theorem C6_out_of_range_answered_False:
  "fst (after_calls predictions) = Inr True \<and>
   phase playing_round = PLAYING \<and>
   list_get (apprentices playing_round) (current_apprentice_index playing_round) = Inr 1 \<and>
   length (hand (playing_heap 1)) = 8 \<and>
   fst (Round_play_card 1 8 playing_heap playing_round) = Inr False \<and>
   fst (Round_play_card 1 (- 1) playing_heap playing_round) = Inr False"
  by (intro conjI; code_simp)

text \<open>
  C6, amended: in the playing phase, on the acting apprentice's turn, a position outside
  the hand is not among the playable positions, so \<open>Round.play_card\<close> answers \<open>False\<close> when
  a trick is active (and raises \<open>ValueError\<close> for the missing trick otherwise), and heap
  and round are as before the call. The \<open>IndexError\<close> of \<open>Apprentice.play_card\<close> for such a
  position is never reached from the round.
\<close>

theorem C6_play_card_out_of_range:
  assumes "phase r = PLAYING"
    and "list_get (apprentices r) (current_apprentice_index r) = Inr a"
    and "card_index < 0 \<or> int (length (hand (h a))) \<le> card_index"
  shows "Round_play_card a card_index h r =
           ((case current_trick r of None \<Rightarrow> Inl ValueError | Some t \<Rightarrow> Inr False), h, r) \<and>
         Apprentice_play_card card_index (h a) = Inl IndexError"
proof
  show "Round_play_card a card_index h r =
           ((case current_trick r of None \<Rightarrow> Inl ValueError | Some t \<Rightarrow> Inr False), h, r)"
  proof (cases "current_trick r")
    case None
    with assms(1,2) show ?thesis by (simp add: Round_play_card_def)
  next
    case (Some t)
    have "card_index \<notin> set (get_playable_cards (leading_color t) (h a))"
      using get_playable_cards_in_range [of card_index "leading_color t" "h a"] assms(3)
      by auto
    from Round_play_card_not_playable [of r a t card_index h, OF assms(1,2) Some this] Some
    show ?thesis by simp
  qed
  from assms(3) show "Apprentice_play_card card_index (h a) = Inl IndexError"
    by (auto simp: Apprentice_play_card_def)
qed

theorem C6_play_card_out_of_range_witness:
  "phase playing_round = PLAYING \<and>
   list_get (apprentices playing_round) (current_apprentice_index playing_round) = Inr 1 \<and>
   length (hand (playing_heap 1)) = 8 \<and>
   current_trick playing_round = Some (Trick_init (Some 1) (Some ELVES)) \<and>
   Round_play_card 1 8 playing_heap playing_round = (Inr False, playing_heap, playing_round) \<and>
   Apprentice_play_card 8 (playing_heap 1) = Inl IndexError"
proof -
  have ph: "phase playing_round = PLAYING" by code_simp
  have turn: "list_get (apprentices playing_round) (current_apprentice_index playing_round)
     = Inr 1" by code_simp
  have len: "length (hand (playing_heap 1)) = 8" by code_simp
  have tr: "current_trick playing_round = Some (Trick_init (Some 1) (Some ELVES))" by code_simp
  from len have out: "(8::int) < 0 \<or> int (length (hand (playing_heap 1))) \<le> 8" by simp
  from C6_play_card_out_of_range [of playing_round 1 8 playing_heap, OF ph turn out] tr
  have rej: "Round_play_card 1 8 playing_heap playing_round =
      (Inr False, playing_heap, playing_round)"
    and err: "Apprentice_play_card 8 (playing_heap 1) = Inl IndexError" by simp_all
  from ph turn len tr rej err show ?thesis by (intro conjI)
qed

text \<open>
  C4, at the failing input. Apprentice 1 leads a Wizard, apprentice 2 plays the 1 of HUMANS,
  which sets the leading color. It is the turn of apprentice 3, who holds five cards of
  HUMANS and the 1, 2 and 3 of ELVES. \<open>Round.play_card\<close> refuses position 5, the 1 of
  ELVES, and changes nothing, although the first card of the trick is a Wizard;
  \<open>Trick.is_valid_play\<close>, which the round never calls, accepts the same card.
\<close>

theorem C4_wizard_led_must_follow_color:
  "fst (after_calls wizard_led) = Inr True \<and>
   phase wizard_led_round = PLAYING \<and>
   list_get (apprentices wizard_led_round) (current_apprentice_index wizard_led_round) = Inr 3 \<and>
   current_trick wizard_led_round =
     Some \<lparr>leading_apprentice = Some 1, trump_color = Some ELVES,
           cards_played = [(1, wizard_card), (2, regular_card HUMANS 1)],
           leading_color = Some HUMANS, winner = None, is_complete = False\<rparr> \<and>
   hand (wizard_led_heap 3) =
     [regular_card HUMANS 9, regular_card HUMANS 10, regular_card HUMANS 11,
      regular_card HUMANS 12, regular_card HUMANS 13, regular_card ELVES 1,
      regular_card ELVES 2, regular_card ELVES 3] \<and>
   get_playable_cards (Some HUMANS) (wizard_led_heap 3) = [0, 1, 2, 3, 4] \<and>
   fst (Round_play_card 3 5 wizard_led_heap wizard_led_round) = Inr False \<and>
   is_valid_play 3 (regular_card ELVES 1) (the (current_trick wizard_led_round))
     wizard_led_heap = True"
  by (intro conjI; code_simp)

end
